theory Spec2Isabelle
  imports Complex_Main
begin

section \<open>Descriptive statistics of a table (programs/analysis/describe.py)\<close>

text \<open>
  The class \<open>Describe\<close> receives a pandas DataFrame and fills, one statistic after the
  other, a dictionary \<open>stats\<close> from column name to a dictionary of statistics.

  Numbers. A finite float is modelled by the real number it denotes: the arithmetic of
  the model is exact, it has no rounding error and no overflow. The special values of
  floats that the code can produce or read (NaN for a missing cell, the infinities of a
  numpy division by zero) are constructors of their own. \<open>round(x, 6)\<close> is rounding to
  the nearest multiple of \<open>10^-6\<close>, ties to the even one.

  The table. A DataFrame is the list of its columns, each with its name and either the
  cells of a numeric column (a finite number or missing) or the strings of another
  column. The cells of the input are finite or missing; an infinity is never read.

  Which division raises. Iterating over a Series yields Python floats, and the length
  of a Series is a Python \<open>int\<close>: the divisions of \<open>get_missing_values\<close>, \<open>get_mean\<close> and
  \<open>get_var\<close> are Python's and raise ZeroDivisionError on a zero divisor. Indexing a
  Series and \<open>np.sqrt\<close> yield \<open>numpy.float64\<close>, whose division returns NaN or an
  infinity instead.
\<close>

subsection \<open>Values\<close>

datatype error = ZeroDivisionError | KeyError | TypeError

datatype fl = Num real | PInf | NInf | NaN

datatype pyval = IntV int | FloatV fl

text \<open>A cell of a numeric column: a finite number, or missing (NaN in pandas).\<close>

type_synonym cell = "real option"

datatype coldata = Numeric "cell list" | Other "string list"

type_synonym table = "(string \<times> coldata) list"

type_synonym stats = "string \<rightharpoonup> pyval"

text \<open>The dictionary \<open>self.stats\<close>: its keys in insertion order.\<close>

type_synonym report = "(string \<times> stats) list"

definition bind :: "error + 'a \<Rightarrow> ('a \<Rightarrow> error + 'b) \<Rightarrow> error + 'b" where
  "bind m f = (case m of Inl e \<Rightarrow> Inl e | Inr x \<Rightarrow> f x)"

subsection \<open>Arithmetic of Python and numpy\<close>

definition round_half_even :: "real \<Rightarrow> int" where
  "round_half_even x =
     (let f = \<lfloor>x\<rfloor>; d = x - of_int f
      in if d < 1 / 2 then f
         else if 1 / 2 < d then f + 1
         else if even f then f else f + 1)"

definition round6 :: "real \<Rightarrow> real" where
  "round6 x = of_int (round_half_even (x * 1000000)) / 1000000"

text \<open>\<open>a / b\<close> on Python's own \<open>int\<close> and \<open>float\<close>: a zero divisor raises.\<close>

definition py_div :: "real \<Rightarrow> real \<Rightarrow> error + real" where
  "py_div a b = (if b = 0 then Inl ZeroDivisionError else Inr (a / b))"

text \<open>\<open>int(x)\<close> truncates towards zero.\<close>

definition py_int :: "real \<Rightarrow> int" where
  "py_int x = (if 0 \<le> x then \<lfloor>x\<rfloor> else \<lceil>x\<rceil>)"

text \<open>\<open>x % 1\<close> on a float is the distance to the floor.\<close>

definition py_mod1 :: "real \<Rightarrow> real" where
  "py_mod1 x = x - of_int \<lfloor>x\<rfloor>"

text \<open>
  As soon as one operand is a \<open>numpy.float64\<close> the operation is numpy's: it follows
  IEEE 754 and raises nothing.
\<close>

fun fl_neg :: "fl \<Rightarrow> fl" where
  "fl_neg (Num a) = Num (- a)"
| "fl_neg PInf = NInf"
| "fl_neg NInf = PInf"
| "fl_neg NaN = NaN"

fun fl_add :: "fl \<Rightarrow> fl \<Rightarrow> fl" where
  "fl_add (Num a) (Num b) = Num (a + b)"
| "fl_add NaN _ = NaN"
| "fl_add _ NaN = NaN"
| "fl_add PInf NInf = NaN"
| "fl_add NInf PInf = NaN"
| "fl_add PInf _ = PInf"
| "fl_add NInf _ = NInf"
| "fl_add _ PInf = PInf"
| "fl_add _ NInf = NInf"

definition fl_sub :: "fl \<Rightarrow> fl \<Rightarrow> fl" where
  "fl_sub a b = fl_add a (fl_neg b)"

fun fl_div :: "fl \<Rightarrow> fl \<Rightarrow> fl" where
  "fl_div (Num a) (Num b) =
     (if b \<noteq> 0 then Num (a / b)
      else if a = 0 then NaN
      else if 0 < a then PInf else NInf)"
| "fl_div NaN _ = NaN"
| "fl_div _ NaN = NaN"
| "fl_div (Num a) _ = Num 0"
| "fl_div PInf (Num b) = (if 0 \<le> b then PInf else NInf)"
| "fl_div NInf (Num b) = (if 0 \<le> b then NInf else PInf)"
| "fl_div _ _ = NaN"

fun fl_pow4 :: "fl \<Rightarrow> fl" where
  "fl_pow4 (Num a) = Num (a ^ 4)"
| "fl_pow4 PInf = PInf"
| "fl_pow4 NInf = PInf"
| "fl_pow4 NaN = NaN"

fun fl_sqrt :: "fl \<Rightarrow> fl" where
  "fl_sqrt (Num a) = (if a < 0 then NaN else Num (sqrt a))"
| "fl_sqrt PInf = PInf"
| "fl_sqrt NInf = NaN"
| "fl_sqrt NaN = NaN"

fun fl_round6 :: "fl \<Rightarrow> fl" where
  "fl_round6 (Num a) = Num (round6 a)"
| "fl_round6 x = x"

text \<open>\<open>a < b\<close>: every comparison with NaN is false.\<close>

fun fl_less :: "fl \<Rightarrow> fl \<Rightarrow> bool" where
  "fl_less NaN _ = False"
| "fl_less _ NaN = False"
| "fl_less (Num a) (Num b) = (a < b)"
| "fl_less NInf NInf = False"
| "fl_less NInf _ = True"
| "fl_less _ NInf = False"
| "fl_less PInf _ = False"
| "fl_less _ PInf = True"

subsection \<open>The table and the dictionary of statistics\<close>

definition label_column :: string where
  "label_column = ''Hogwarts House''"

fun is_numeric :: "coldata \<Rightarrow> bool" where
  "is_numeric (Numeric _) = True"
| "is_numeric (Other _) = False"

text \<open>\<open>data.select_dtypes(include=[np.number]).columns\<close>\<close>

definition select_dtypes_number :: "table \<Rightarrow> string list" where
  "select_dtypes_number data = map fst (filter (\<lambda>(c, d). is_numeric d) data)"

text \<open>\<open>d[k] = v\<close> on a dictionary: a key that is already there keeps its place.\<close>

fun dict_set :: "string \<Rightarrow> 'v \<Rightarrow> (string \<times> 'v) list \<Rightarrow> (string \<times> 'v) list" where
  "dict_set k v [] = [(k, v)]"
| "dict_set k v ((k', v') # d) = (if k = k' then (k, v) # d else (k', v') # dict_set k v d)"

text \<open>\<open>{col: {} for col in numeric_cols if col != "Hogwarts House"}\<close>\<close>

definition init_stats :: "table \<Rightarrow> report" where
  "init_stats data =
     foldl (\<lambda>d col. dict_set col Map.empty d) []
       (filter (\<lambda>col. col \<noteq> label_column) (select_dtypes_number data))"

text \<open>
  \<open>self.data[col]\<close>. The statistics are only asked of numeric columns; arithmetic on
  the strings of another column would be a TypeError.
\<close>

definition column :: "table \<Rightarrow> string \<Rightarrow> error + cell list" where
  "column data col =
     (case map_of data col of
        None \<Rightarrow> Inl KeyError
      | Some (Numeric cells) \<Rightarrow> Inr cells
      | Some (Other _) \<Rightarrow> Inl TypeError)"

fun dropna :: "cell list \<Rightarrow> real list" where
  "dropna [] = []"
| "dropna (None # cs) = dropna cs"
| "dropna (Some x # cs) = x # dropna cs"

text \<open>
  \<open>s[i]\<close> on a Series whose index is \<open>0 .. len(s) - 1\<close> (a fresh table, or after
  \<open>reset_index(drop=True)\<close>): the lookup is by label, a label that is not there raises.
\<close>

definition series_at :: "'a list \<Rightarrow> int \<Rightarrow> error + 'a" where
  "series_at s i = (if 0 \<le> i \<and> i < int (length s) then Inr (s ! nat i) else Inl KeyError)"

text \<open>Reading \<open>self.stats[col][key]\<close>.\<close>

definition stat_int :: "stats \<Rightarrow> string \<Rightarrow> error + int" where
  "stat_int r k =
     (case r k of None \<Rightarrow> Inl KeyError | Some (IntV n) \<Rightarrow> Inr n | Some (FloatV _) \<Rightarrow> Inl TypeError)"

definition stat_float :: "stats \<Rightarrow> string \<Rightarrow> error + fl" where
  "stat_float r k =
     (case r k of None \<Rightarrow> Inl KeyError | Some (IntV n) \<Rightarrow> Inr (Num (of_int n)) | Some (FloatV x) \<Rightarrow> Inr x)"

text \<open>
  \<open>for col in self.stats: ...\<close> where the body changes \<open>self.stats[col]\<close> only, or
  raises, which ends the whole loop.
\<close>

fun for_each_col :: "(string \<Rightarrow> stats \<Rightarrow> error + stats) \<Rightarrow> report \<Rightarrow> error + report" where
  "for_each_col body [] = Inr []"
| "for_each_col body ((col, r) # rest) =
     (case body col r of
        Inl e \<Rightarrow> Inl e
      | Inr r' \<Rightarrow>
          (case for_each_col body rest of
             Inl e \<Rightarrow> Inl e
           | Inr rest' \<Rightarrow> Inr ((col, r') # rest')))"

subsection \<open>The statistics, in the order of the constructor\<close>

definition get_count_col :: "table \<Rightarrow> string \<Rightarrow> stats \<Rightarrow> error + stats" where
  "get_count_col data col r =
     bind (column data col) (\<lambda>cells.
       let data_col = dropna cells
       in Inr (r(''count'' \<mapsto> IntV (int (length data_col)))))"

definition get_missing_values_col :: "table \<Rightarrow> string \<Rightarrow> stats \<Rightarrow> error + stats" where
  "get_missing_values_col data col r =
     bind (column data col) (\<lambda>data_col.
       let count = int (length data_col)
       in bind (stat_int r ''count'') (\<lambda>c.
            let missing_values = count - c
            in bind (py_div (of_int missing_values) (of_int count)) (\<lambda>q.
                 Inr (r(''missing(%)'' \<mapsto> FloatV (Num (round6 (q * 100))))))))"

definition get_mean_col :: "table \<Rightarrow> string \<Rightarrow> stats \<Rightarrow> error + stats" where
  "get_mean_col data col r =
     bind (column data col) (\<lambda>cells.
       let data_col = dropna cells
       in bind (stat_int r ''count'') (\<lambda>c.
            bind (py_div (sum_list data_col) (of_int c)) (\<lambda>mean.
              Inr (r(''mean'' \<mapsto> FloatV (Num (round6 mean)))))))"

definition get_var_col :: "table \<Rightarrow> string \<Rightarrow> stats \<Rightarrow> error + stats" where
  "get_var_col data col r =
     bind (column data col) (\<lambda>cells.
       let data_col = dropna cells
       in bind (stat_int r ''count'') (\<lambda>c.
            bind (py_div (sum_list data_col) (of_int c)) (\<lambda>mean.
              bind (py_div (sum_list (map (\<lambda>i. (i - mean) ^ 2) data_col)) (of_int (c - 1)))
                (\<lambda>variance. Inr (r(''var'' \<mapsto> FloatV (Num (round6 variance))))))))"

definition get_std_col :: "table \<Rightarrow> string \<Rightarrow> stats \<Rightarrow> error + stats" where
  "get_std_col data col r =
     bind (stat_float r ''var'') (\<lambda>variance.
       Inr (r(''std'' \<mapsto> FloatV (fl_round6 (fl_sqrt variance)))))"

text \<open>
  \<open>get_min\<close> and \<open>get_max\<close> store the first cell of the column as it is, then walk
  over all the cells; \<open>cur\<close> is the value of \<open>self.stats[col]["min"]\<close>.
\<close>

fun cell_value :: "cell \<Rightarrow> fl" where
  "cell_value None = NaN"
| "cell_value (Some x) = Num x"

fun min_scan :: "fl \<Rightarrow> cell list \<Rightarrow> fl" where
  "min_scan cur [] = cur"
| "min_scan cur (None # cs) = min_scan cur cs"
| "min_scan cur (Some i # cs) =
     (if fl_less (Num i) cur then min_scan (Num (round6 i)) cs else min_scan cur cs)"

fun max_scan :: "fl \<Rightarrow> cell list \<Rightarrow> fl" where
  "max_scan cur [] = cur"
| "max_scan cur (None # cs) = max_scan cur cs"
| "max_scan cur (Some i # cs) =
     (if fl_less cur (Num i) then max_scan (Num (round6 i)) cs else max_scan cur cs)"

definition get_min_col :: "table \<Rightarrow> string \<Rightarrow> stats \<Rightarrow> error + stats" where
  "get_min_col data col r =
     bind (column data col) (\<lambda>cells.
       bind (series_at cells 0) (\<lambda>first.
         Inr (r(''min'' \<mapsto> FloatV (min_scan (cell_value first) cells)))))"

definition get_max_col :: "table \<Rightarrow> string \<Rightarrow> stats \<Rightarrow> error + stats" where
  "get_max_col data col r =
     bind (column data col) (\<lambda>cells.
       bind (series_at cells 0) (\<lambda>first.
         Inr (r(''max'' \<mapsto> FloatV (max_scan (cell_value first) cells)))))"

text \<open>
  \<open>get_25\<close>, \<open>get_50\<close> and \<open>get_75\<close> are one text with three constants;
  \<open>quartile\<close> is that text from \<open>value = ...\<close> to \<open>round(quartile, 6)\<close>.
\<close>

definition quartile :: "real \<Rightarrow> int \<Rightarrow> real list \<Rightarrow> error + real" where
  "quartile p count data_col =
     (let v = of_int (count - 1) * p
      in if py_mod1 v = 0
         then bind (series_at data_col (py_int v)) (\<lambda>q. Inr (round6 q))
         else
           let lower_value = py_int v;
               upper_value = lower_value + 1;
               interpolation = v - of_int lower_value
           in bind (series_at data_col lower_value) (\<lambda>lo.
                bind (series_at data_col upper_value) (\<lambda>hi.
                  Inr (round6 (lo * (1 - interpolation) + hi * interpolation)))))"

definition get_quartile_col :: "real \<Rightarrow> string \<Rightarrow> table \<Rightarrow> string \<Rightarrow> stats \<Rightarrow> error + stats" where
  "get_quartile_col p key data col r =
     bind (column data col) (\<lambda>cells.
       let data_col = sort (dropna cells)
       in bind (stat_int r ''count'') (\<lambda>c.
            bind (quartile p c data_col) (\<lambda>q.
              Inr (r(key \<mapsto> FloatV (Num q))))))"

definition get_25_col :: "table \<Rightarrow> string \<Rightarrow> stats \<Rightarrow> error + stats" where
  "get_25_col = get_quartile_col (1 / 4) ''25%''"

definition get_50_col :: "table \<Rightarrow> string \<Rightarrow> stats \<Rightarrow> error + stats" where
  "get_50_col = get_quartile_col (1 / 2) ''50%''"

definition get_75_col :: "table \<Rightarrow> string \<Rightarrow> stats \<Rightarrow> error + stats" where
  "get_75_col = get_quartile_col (3 / 4) ''75%''"

definition get_iqr_col :: "table \<Rightarrow> string \<Rightarrow> stats \<Rightarrow> error + stats" where
  "get_iqr_col data col r =
     bind (stat_float r ''75%'') (\<lambda>q75.
       bind (stat_float r ''25%'') (\<lambda>q25.
         Inr (r(''iqr'' \<mapsto> FloatV (fl_sub q75 q25)))))"

text \<open>
  The loop of \<open>get_mode\<close> over \<open>i = 1 .. len - 1\<close>: \<open>prev\<close> is \<open>data_col[i - 1]\<close>, the
  list holds \<open>data_col[i]\<close> and what follows.
\<close>

fun mode_scan :: "real \<Rightarrow> real list \<Rightarrow> real \<Rightarrow> nat \<Rightarrow> nat \<Rightarrow> real" where
  "mode_scan prev [] mode count max_count = mode"
| "mode_scan prev (x # xs) mode count max_count =
     (if x = prev then mode_scan x xs mode (count + 1) max_count
      else if max_count < count then mode_scan x xs prev 0 count
      else mode_scan x xs mode 0 max_count)"

definition find_mode :: "real list \<Rightarrow> error + real" where
  "find_mode data_col =
     bind (series_at data_col 0) (\<lambda>first.
       Inr (mode_scan first (tl data_col) first 0 0))"

definition get_mode_col :: "table \<Rightarrow> string \<Rightarrow> stats \<Rightarrow> error + stats" where
  "get_mode_col data col r =
     bind (column data col) (\<lambda>cells.
       let data_col = sort (dropna cells)
       in bind (find_mode data_col) (\<lambda>mode.
            Inr (r(''mode'' \<mapsto> FloatV (Num mode)))))"

text \<open>
  In \<open>get_kurtosis\<close> the cells are Python floats, the stored mean is one too, the stored
  \<open>std\<close> is a \<open>numpy.float64\<close>: the division by \<open>std\<close> is numpy's. \<open>sum\<close> starts from the
  integer 0, so the sum of no term at all is an \<open>int\<close> and its division is Python's.
\<close>

definition kurtosis_sum :: "fl \<Rightarrow> fl \<Rightarrow> real list \<Rightarrow> fl" where
  "kurtosis_sum mean std data_col =
     foldl fl_add (Num 0) (map (\<lambda>i. fl_pow4 (fl_div (fl_sub (Num i) mean) std)) data_col)"

definition get_kurtosis_col :: "table \<Rightarrow> string \<Rightarrow> stats \<Rightarrow> error + stats" where
  "get_kurtosis_col data col r =
     bind (column data col) (\<lambda>cells.
       let data_col = dropna cells
       in bind (stat_float r ''mean'') (\<lambda>mean.
            bind (stat_float r ''std'') (\<lambda>std.
              bind (stat_int r ''count'') (\<lambda>c.
                bind (if data_col = [] then bind (py_div 0 (of_int c)) (\<lambda>k. Inr (Num k))
                      else Inr (fl_div (kurtosis_sum mean std data_col) (Num (of_int c))))
                  (\<lambda>kurtosis. Inr (r(''kurtosis'' \<mapsto> FloatV (fl_round6 kurtosis))))))))"

text \<open>\<open>Describe.__init__\<close>, which leaves \<open>self.stats\<close> or raises.\<close>

definition describe :: "table \<Rightarrow> error + report" where
  "describe data =
     bind (for_each_col (get_count_col data) (init_stats data)) (\<lambda>s1.
     bind (for_each_col (get_missing_values_col data) s1) (\<lambda>s2.
     bind (for_each_col (get_mean_col data) s2) (\<lambda>s3.
     bind (for_each_col (get_var_col data) s3) (\<lambda>s4.
     bind (for_each_col (get_std_col data) s4) (\<lambda>s5.
     bind (for_each_col (get_min_col data) s5) (\<lambda>s6.
     bind (for_each_col (get_25_col data) s6) (\<lambda>s7.
     bind (for_each_col (get_50_col data) s7) (\<lambda>s8.
     bind (for_each_col (get_75_col data) s8) (\<lambda>s9.
     bind (for_each_col (get_iqr_col data) s9) (\<lambda>s10.
     bind (for_each_col (get_max_col data) s10) (\<lambda>s11.
     bind (for_each_col (get_mode_col data) s11) (\<lambda>s12.
     for_each_col (get_kurtosis_col data) s12))))))))))))"

section \<open>What the statistics are meant to be\<close>

text \<open>
  The quantile of the specification: sort the present values, take the virtual index
  \<open>v = (count - 1) * p\<close>; the value at \<open>v\<close> when \<open>v\<close> is an integer, otherwise the
  linear interpolation between the values at \<open>floor v\<close> and \<open>floor v + 1\<close>.
\<close>

definition spec_quantile :: "real \<Rightarrow> real list \<Rightarrow> real" where
  "spec_quantile p xs =
     (let sorted = sort xs; v = (real (length xs) - 1) * p
      in if of_int \<lfloor>v\<rfloor> = v then sorted ! nat \<lfloor>v\<rfloor>
         else
           let lo = \<lfloor>v\<rfloor>; hi = lo + 1; frac = v - of_int lo
           in sorted ! nat lo * (1 - frac) + sorted ! nat hi * frac)"

text \<open>
  The columns the statistics are computed for, with their cells: the numeric columns
  other than the label column, in the order of the table.
\<close>

fun qualifying :: "table \<Rightarrow> (string \<times> cell list) list" where
  "qualifying [] = []"
| "qualifying ((c, Numeric cells) # t) =
     (if c \<noteq> label_column then (c, cells) # qualifying t else qualifying t)"
| "qualifying ((c, Other _) # t) = qualifying t"

text \<open>
  The mode of the specification: the most frequent value, the smallest one when several
  values are as frequent.
\<close>

definition spec_mode :: "real list \<Rightarrow> real option" where
  "spec_mode xs =
     (case sort (filter (\<lambda>x. list_all (\<lambda>y. count_list xs y \<le> count_list xs x) xs) xs) of
        [] \<Rightarrow> None
      | m # _ \<Rightarrow> Some m)"

text \<open>
  The record of a column once every statistic has been stored, and the records in
  between: what each loop of the constructor leaves when no division raises.
\<close>

definition count_of :: "cell list \<Rightarrow> int" where
  "count_of cells = int (length (dropna cells))"

definition missing_of :: "cell list \<Rightarrow> real" where
  "missing_of cells =
     round6 (of_int (int (length cells) - count_of cells) / of_int (int (length cells)) * 100)"

definition mean_raw :: "cell list \<Rightarrow> real" where
  "mean_raw cells = sum_list (dropna cells) / of_int (count_of cells)"

definition mean_of :: "cell list \<Rightarrow> real" where
  "mean_of cells = round6 (mean_raw cells)"

definition var_of :: "cell list \<Rightarrow> real" where
  "var_of cells =
     round6 (sum_list (map (\<lambda>i. (i - mean_raw cells) ^ 2) (dropna cells))
             / of_int (count_of cells - 1))"

definition std_of :: "cell list \<Rightarrow> fl" where
  "std_of cells = fl_round6 (fl_sqrt (Num (var_of cells)))"

definition min_of :: "cell list \<Rightarrow> fl" where
  "min_of cells = min_scan (cell_value (cells ! 0)) cells"

definition max_of :: "cell list \<Rightarrow> fl" where
  "max_of cells = max_scan (cell_value (cells ! 0)) cells"

definition quantile_of :: "real \<Rightarrow> cell list \<Rightarrow> real" where
  "quantile_of p cells = round6 (spec_quantile p (dropna cells))"

definition mode_of :: "cell list \<Rightarrow> real" where
  "mode_of cells =
     (let s = sort (dropna cells) in mode_scan (s ! 0) (tl s) (s ! 0) 0 0)"

definition kurtosis_of :: "cell list \<Rightarrow> fl" where
  "kurtosis_of cells =
     fl_round6 (fl_div (kurtosis_sum (Num (mean_of cells)) (std_of cells) (dropna cells))
                       (Num (of_int (count_of cells))))"

definition s_count :: "cell list \<Rightarrow> stats" where
  "s_count cells = [''count'' \<mapsto> IntV (count_of cells)]"

definition s_missing :: "cell list \<Rightarrow> stats" where
  "s_missing cells = (s_count cells)(''missing(%)'' \<mapsto> FloatV (Num (missing_of cells)))"

definition s_mean :: "cell list \<Rightarrow> stats" where
  "s_mean cells = (s_missing cells)(''mean'' \<mapsto> FloatV (Num (mean_of cells)))"

definition s_var :: "cell list \<Rightarrow> stats" where
  "s_var cells = (s_mean cells)(''var'' \<mapsto> FloatV (Num (var_of cells)))"

definition s_std :: "cell list \<Rightarrow> stats" where
  "s_std cells = (s_var cells)(''std'' \<mapsto> FloatV (std_of cells))"

definition s_min :: "cell list \<Rightarrow> stats" where
  "s_min cells = (s_std cells)(''min'' \<mapsto> FloatV (min_of cells))"

definition s_25 :: "cell list \<Rightarrow> stats" where
  "s_25 cells = (s_min cells)(''25%'' \<mapsto> FloatV (Num (quantile_of (1 / 4) cells)))"

definition s_50 :: "cell list \<Rightarrow> stats" where
  "s_50 cells = (s_25 cells)(''50%'' \<mapsto> FloatV (Num (quantile_of (1 / 2) cells)))"

definition s_75 :: "cell list \<Rightarrow> stats" where
  "s_75 cells = (s_50 cells)(''75%'' \<mapsto> FloatV (Num (quantile_of (3 / 4) cells)))"

definition s_iqr :: "cell list \<Rightarrow> stats" where
  "s_iqr cells =
     (s_75 cells)(''iqr'' \<mapsto>
        FloatV (Num (quantile_of (3 / 4) cells - quantile_of (1 / 4) cells)))"

definition s_max :: "cell list \<Rightarrow> stats" where
  "s_max cells = (s_iqr cells)(''max'' \<mapsto> FloatV (max_of cells))"

definition s_mode :: "cell list \<Rightarrow> stats" where
  "s_mode cells = (s_max cells)(''mode'' \<mapsto> FloatV (Num (mode_of cells)))"

definition col_stats :: "cell list \<Rightarrow> stats" where
  "col_stats cells = (s_mode cells)(''kurtosis'' \<mapsto> FloatV (kurtosis_of cells))"

definition enough :: "cell list \<Rightarrow> bool" where
  "enough cells = (2 \<le> length (dropna cells))"

definition sample_table :: table where
  "sample_table =
     [(''Index'', Numeric [Some 0, Some 1, Some 2, Some 3]),
      (''Hogwarts House'', Other [''Ravenclaw'', ''Slytherin'', ''Ravenclaw'', ''Gryffindor'']),
      (''Arithmancy'', Numeric [Some 1, None, Some 3, Some 5]),
      (''First Name'', Other [''Tamara'', ''Erich'', ''Stephany'', ''Gaston''])]"

section \<open>Properties\<close>

subsection \<open>Helpers\<close>

lemma bind_Inr [simp]: "bind (Inr x) f = f x"
  by (simp add: bind_def)

lemma bind_Inl [simp]: "bind (Inl e) f = Inl e"
  by (simp add: bind_def)

lemma py_int_nonneg: "0 \<le> x \<Longrightarrow> py_int x = \<lfloor>x\<rfloor>"
  by (simp add: py_int_def)

lemma virtual_index_bounds:
  fixes p :: real and n :: int
  assumes n: "1 \<le> n" and p0: "0 \<le> p" and p1: "p \<le> 1"
  defines "v \<equiv> of_int (n - 1) * p"
  shows "0 \<le> v" and "\<lfloor>v\<rfloor> \<le> n - 1" and "py_mod1 v \<noteq> 0 \<Longrightarrow> \<lfloor>v\<rfloor> + 1 \<le> n - 1"
proof -
  have n0: "(0::real) \<le> of_int (n - 1)" using n by simp
  show v0: "0 \<le> v" unfolding v_def using n0 p0 by simp
  have vle: "v \<le> of_int (n - 1)"
    unfolding v_def using n0 p1 by (simp add: mult_left_le)
  then show fl: "\<lfloor>v\<rfloor> \<le> n - 1" by (simp add: floor_le_iff) linarith
  assume nz: "py_mod1 v \<noteq> 0"
  have "\<lfloor>v\<rfloor> \<noteq> n - 1"
  proof
    assume e: "\<lfloor>v\<rfloor> = n - 1"
    have "of_int \<lfloor>v\<rfloor> \<le> v" by simp
    with e vle have "v = of_int (n - 1)" by simp
    then have "py_mod1 v = 0" by (simp add: py_mod1_def)
    with nz show False by simp
  qed
  with fl show "\<lfloor>v\<rfloor> + 1 \<le> n - 1" by simp
qed

lemma quartile_in_range:
  fixes p :: real
  assumes ne: "s \<noteq> []" and p0: "0 \<le> p" and p1: "p \<le> 1"
  shows "quartile p (int (length s)) s =
         Inr (round6
           (let v = (real (length s) - 1) * p
            in if of_int \<lfloor>v\<rfloor> = v then s ! nat \<lfloor>v\<rfloor>
               else s ! nat \<lfloor>v\<rfloor> * (1 - (v - of_int \<lfloor>v\<rfloor>))
                    + s ! nat (\<lfloor>v\<rfloor> + 1) * (v - of_int \<lfloor>v\<rfloor>)))"
proof -
  define n where "n = int (length s)"
  define v where "v = of_int (n - 1) * p"
  have n: "1 \<le> n" using ne by (cases s) (simp_all add: n_def)
  note b = virtual_index_bounds [OF n p0 p1, folded v_def]
  have pi: "py_int v = \<lfloor>v\<rfloor>" using b(1) by (rule py_int_nonneg)
  have f0: "0 \<le> \<lfloor>v\<rfloor>" using b(1) by simp
  have v': "(real (length s) - 1) * p = v" by (simp add: v_def n_def)
  have at: "\<And>i. 0 \<le> i \<Longrightarrow> i \<le> n - 1 \<Longrightarrow> series_at s i = Inr (s ! nat i)"
    by (simp add: series_at_def n_def)
  show ?thesis
  proof (cases "py_mod1 v = 0")
    case True
    then have iv: "of_int \<lfloor>v\<rfloor> = v" by (simp add: py_mod1_def)
    show ?thesis
      unfolding quartile_def n_def [symmetric] v_def [symmetric] v' Let_def
      using True iv at [OF f0 b(2)] by (simp add: pi bind_def)
  next
    case False
    then have iv: "\<nexists>k. v = of_int k" by (auto simp: py_mod1_def)
    have hi: "0 \<le> \<lfloor>v\<rfloor> + 1" using f0 by simp
    show ?thesis
      unfolding quartile_def n_def [symmetric] v_def [symmetric] v' Let_def
      using False iv at [OF f0 b(2)] at [OF hi b(3) [OF False]] by (simp add: pi bind_def)
  qed
qed

lemma quartile_spec:
  fixes p :: real
  assumes "xs \<noteq> []" and "0 \<le> p" and "p \<le> 1"
  shows "quartile p (int (length xs)) (sort xs) = Inr (round6 (spec_quantile p xs))"
proof -
  have "sort xs \<noteq> []" using assms(1) by (metis length_sort length_0_conv)
  from quartile_in_range [OF this assms(2,3)] show ?thesis
    by (simp add: spec_quantile_def Let_def)
qed


lemma get_quartile_col_eq:
  fixes p :: real
  assumes col: "column data col = Inr cells" and ne: "dropna cells \<noteq> []"
    and cnt: "r ''count'' = Some (IntV (int (length (dropna cells))))"
    and p: "0 \<le> p" "p \<le> 1"
  shows "get_quartile_col p key data col r =
         Inr (r(key \<mapsto> FloatV (Num (round6 (spec_quantile p (dropna cells))))))"
  by (simp add: get_quartile_col_def col stat_int_def cnt quartile_spec [OF ne p])

lemma bind_if: "bind (if b then m else Inl e) f = (if b then bind m f else Inl e)"
  by simp

lemma dict_set_fresh: "k \<notin> fst ` set d \<Longrightarrow> dict_set k v d = d @ [(k, v)]"
  by (induction d) auto

lemma foldl_dict_set:
  "distinct ks \<Longrightarrow> set ks \<inter> fst ` set d = {} \<Longrightarrow>
   foldl (\<lambda>d col. dict_set col v d) d ks = d @ map (\<lambda>k. (k, v)) ks"
proof (induction ks arbitrary: d)
  case Nil
  then show ?case by simp
next
  case (Cons k ks)
  have fresh: "k \<notin> fst ` set d" using Cons.prems(2) by auto
  have "set ks \<inter> fst ` set (d @ [(k, v)]) = {}"
    using Cons.prems by auto
  with Cons.IH [of "d @ [(k, v)]"] Cons.prems(1) show ?case
    by (simp add: dict_set_fresh [OF fresh])
qed

lemma qualifying_names:
  "map fst (qualifying t) =
   filter (\<lambda>col. col \<noteq> label_column) (select_dtypes_number t)"
  by (induction t rule: qualifying.induct) (simp_all add: select_dtypes_number_def)

lemma qualifying_subset: "(c, cells) \<in> set (qualifying t) \<Longrightarrow> (c, Numeric cells) \<in> set t"
  by (induction t rule: qualifying.induct) (auto split: if_splits)

lemma distinct_qualifying: "distinct (map fst t) \<Longrightarrow> distinct (map fst (qualifying t))"
  by (induction t rule: qualifying.induct) (auto dest: qualifying_subset simp: rev_image_eqI)

lemma init_stats_eq:
  assumes "distinct (map fst t)"
  shows "init_stats t = map (\<lambda>(c, cells). (c, Map.empty)) (qualifying t)"
proof -
  have d: "distinct (map fst (qualifying t))" using assms by (rule distinct_qualifying)
  have "init_stats t = map (\<lambda>k. (k, Map.empty)) (map fst (qualifying t))"
    unfolding init_stats_def qualifying_names [symmetric]
    using foldl_dict_set [OF d, of "[]"] by simp
  also have "\<dots> = map (\<lambda>(c, cells). (c, Map.empty)) (qualifying t)"
    by (simp add: case_prod_unfold)
  finally show ?thesis .
qed

lemma column_qualifying:
  "distinct (map fst t) \<Longrightarrow> (c, cells) \<in> set (qualifying t) \<Longrightarrow> column t c = Inr cells"
proof -
  assume d: "distinct (map fst t)" and q: "(c, cells) \<in> set (qualifying t)"
  have "map_of t c = Some (Numeric cells)"
    using d qualifying_subset [OF q] by (rule map_of_is_SomeI)
  then show ?thesis by (simp add: column_def)
qed

lemma for_each_col_map:
  assumes "\<And>c cells. (c, cells) \<in> set qs \<Longrightarrow>
             body c (R cells) = (if ok cells then Inr (R' cells) else Inl ZeroDivisionError)"
  shows "for_each_col body (map (\<lambda>(c, cells). (c, R cells)) qs) =
         (if list_all (\<lambda>(c, cells). ok cells) qs
          then Inr (map (\<lambda>(c, cells). (c, R' cells)) qs)
          else Inl ZeroDivisionError)"
  using assms
proof (induction qs)
  case Nil
  then show ?case by simp
next
  case (Cons q qs)
  obtain c cells where q: "q = (c, cells)" by (cases q)
  have hd: "body c (R cells) = (if ok cells then Inr (R' cells) else Inl ZeroDivisionError)"
    using Cons.prems [of c cells] by (simp add: q)
  have tl: "for_each_col body (map (\<lambda>(c, cells). (c, R cells)) qs) =
         (if list_all (\<lambda>(c, cells). ok cells) qs
          then Inr (map (\<lambda>(c, cells). (c, R' cells)) qs)
          else Inl ZeroDivisionError)"
    using Cons.IH Cons.prems by simp
  show ?case by (simp add: q hd tl)
qed

lemmas stage_defs =
  s_count_def s_missing_def s_mean_def s_var_def s_std_def s_min_def s_25_def s_50_def
  s_75_def s_iqr_def s_max_def s_mode_def

lemma count_lookup:
  "s_count cells ''count'' = Some (IntV (count_of cells))"
  "s_missing cells ''count'' = Some (IntV (count_of cells))"
  "s_mean cells ''count'' = Some (IntV (count_of cells))"
  "s_min cells ''count'' = Some (IntV (count_of cells))"
  "s_25 cells ''count'' = Some (IntV (count_of cells))"
  "s_50 cells ''count'' = Some (IntV (count_of cells))"
  "s_mode cells ''count'' = Some (IntV (count_of cells))"
  by (simp_all add: stage_defs)

lemma other_lookups:
  "s_var cells ''var'' = Some (FloatV (Num (var_of cells)))"
  "s_75 cells ''75%'' = Some (FloatV (Num (quantile_of (3 / 4) cells)))"
  "s_75 cells ''25%'' = Some (FloatV (Num (quantile_of (1 / 4) cells)))"
  "s_mode cells ''mean'' = Some (FloatV (Num (mean_of cells)))"
  "s_mode cells ''std'' = Some (FloatV (std_of cells))"
  by (simp_all add: stage_defs)

lemma dropna_length: "length (dropna cells) \<le> length cells"
  by (induction cells rule: dropna.induct) simp_all

lemma dropna_nonempty: "dropna cells \<noteq> [] \<Longrightarrow> cells \<noteq> []"
  by auto

lemma series_at_0: "s \<noteq> [] \<Longrightarrow> series_at s 0 = Inr (s ! 0)"
  by (simp add: series_at_def)

lemma step_count:
  "column t c = Inr cells \<Longrightarrow> get_count_col t c Map.empty = Inr (s_count cells)"
  by (simp add: get_count_col_def s_count_def count_of_def)

lemma step_missing:
  "column t c = Inr cells \<Longrightarrow>
   get_missing_values_col t c (s_count cells) =
     (if cells \<noteq> [] then Inr (s_missing cells) else Inl ZeroDivisionError)"
  by (simp add: get_missing_values_col_def stat_int_def count_lookup py_div_def
      s_missing_def missing_of_def)

lemma step_mean:
  "column t c = Inr cells \<Longrightarrow>
   get_mean_col t c (s_missing cells) =
     (if dropna cells \<noteq> [] then Inr (s_mean cells) else Inl ZeroDivisionError)"
  by (simp add: get_mean_col_def stat_int_def count_lookup py_div_def
      s_mean_def mean_of_def mean_raw_def count_of_def)

lemma step_var:
  "column t c = Inr cells \<Longrightarrow>
   get_var_col t c (s_mean cells) =
     (if 2 \<le> length (dropna cells) then Inr (s_var cells) else Inl ZeroDivisionError)"
proof -
  assume col: "column t c = Inr cells"
  consider "length (dropna cells) = 0" | "length (dropna cells) = 1" | "2 \<le> length (dropna cells)"
    by linarith
  then show ?thesis
  proof cases
    case 1
    then show ?thesis
      by (simp add: get_var_col_def col stat_int_def count_lookup py_div_def count_of_def)
  next
    case 2
    then show ?thesis
      by (simp add: get_var_col_def col stat_int_def count_lookup py_div_def count_of_def)
  next
    case 3
    then have "dropna cells \<noteq> []" "length (dropna cells) \<noteq> 1"
      "real (length (dropna cells)) \<noteq> 1" by auto
    with 3 show ?thesis
      by (simp add: get_var_col_def col stat_int_def count_lookup py_div_def
          s_var_def var_of_def mean_raw_def count_of_def Let_def)
  qed
qed

lemma step_std: "get_std_col t c (s_var cells) = Inr (s_std cells)"
  by (simp add: get_std_col_def stat_float_def other_lookups s_std_def std_of_def)

lemma step_min:
  "column t c = Inr cells \<Longrightarrow> cells \<noteq> [] \<Longrightarrow> get_min_col t c (s_std cells) = Inr (s_min cells)"
  by (simp add: get_min_col_def series_at_0 s_min_def min_of_def)

lemma step_max:
  "column t c = Inr cells \<Longrightarrow> cells \<noteq> [] \<Longrightarrow> get_max_col t c (s_iqr cells) = Inr (s_max cells)"
  by (simp add: get_max_col_def series_at_0 s_max_def max_of_def)

lemma step_25:
  "column t c = Inr cells \<Longrightarrow> dropna cells \<noteq> [] \<Longrightarrow> get_25_col t c (s_min cells) = Inr (s_25 cells)"
  unfolding get_25_col_def s_25_def quantile_of_def
  by (rule get_quartile_col_eq) (simp_all add: count_lookup count_of_def)

lemma step_50:
  "column t c = Inr cells \<Longrightarrow> dropna cells \<noteq> [] \<Longrightarrow> get_50_col t c (s_25 cells) = Inr (s_50 cells)"
  unfolding get_50_col_def s_50_def quantile_of_def
  by (rule get_quartile_col_eq) (simp_all add: count_lookup count_of_def)

lemma step_75:
  "column t c = Inr cells \<Longrightarrow> dropna cells \<noteq> [] \<Longrightarrow> get_75_col t c (s_50 cells) = Inr (s_75 cells)"
  unfolding get_75_col_def s_75_def quantile_of_def
  by (rule get_quartile_col_eq) (simp_all add: count_lookup count_of_def)

lemma step_iqr: "get_iqr_col t c (s_75 cells) = Inr (s_iqr cells)"
  by (simp add: get_iqr_col_def stat_float_def other_lookups s_iqr_def fl_sub_def)

lemma step_mode:
  "column t c = Inr cells \<Longrightarrow> dropna cells \<noteq> [] \<Longrightarrow> get_mode_col t c (s_max cells) = Inr (s_mode cells)"
proof -
  assume col: "column t c = Inr cells" and ne: "dropna cells \<noteq> []"
  have "sort (dropna cells) \<noteq> []" using ne by (metis length_sort length_0_conv)
  then show ?thesis
    by (simp add: get_mode_col_def col find_mode_def series_at_0 s_mode_def mode_of_def Let_def)
qed

lemma step_kurtosis:
  "column t c = Inr cells \<Longrightarrow> dropna cells \<noteq> [] \<Longrightarrow>
   get_kurtosis_col t c (s_mode cells) = Inr (col_stats cells)"
  by (simp add: get_kurtosis_col_def stat_float_def stat_int_def other_lookups count_lookup
      col_stats_def kurtosis_of_def)

lemma for_each_col_all:
  assumes "\<And>c cells. (c, cells) \<in> set qs \<Longrightarrow> body c (R cells) = Inr (R' cells)"
  shows "for_each_col body (map (\<lambda>(c, cells). (c, R cells)) qs) =
         Inr (map (\<lambda>(c, cells). (c, R' cells)) qs)"
  using for_each_col_map [of qs body R "\<lambda>_. True" R'] assms
  by (simp add: list_all_iff)

lemma enough_nonempty: "enough cells \<Longrightarrow> dropna cells \<noteq> [] \<and> cells \<noteq> []"
  by (auto simp: enough_def)

lemma describe_eq:
  assumes d: "distinct (map fst t)"
  shows "describe t =
         (if list_all (\<lambda>(c, cells). enough cells) (qualifying t)
          then Inr (map (\<lambda>(c, cells). (c, col_stats cells)) (qualifying t))
          else Inl ZeroDivisionError)"
proof -
  define qs where "qs = qualifying t"
  have col: "\<And>c cells. (c, cells) \<in> set qs \<Longrightarrow> column t c = Inr cells"
    unfolding qs_def using d by (rule column_qualifying)
  have s0: "init_stats t = map (\<lambda>(c, cells). (c, Map.empty)) qs"
    unfolding qs_def using d by (rule init_stats_eq)
  have s1: "for_each_col (get_count_col t) (init_stats t) = Inr (map (\<lambda>(c, cells). (c, s_count cells)) qs)"
    unfolding s0 by (rule for_each_col_all) (simp add: step_count col)
  have s2: "for_each_col (get_missing_values_col t) (map (\<lambda>(c, cells). (c, s_count cells)) qs) =
        (if list_all (\<lambda>(c, cells). cells \<noteq> []) qs
         then Inr (map (\<lambda>(c, cells). (c, s_missing cells)) qs) else Inl ZeroDivisionError)"
    by (rule for_each_col_map) (simp add: step_missing col)
  have s3: "for_each_col (get_mean_col t) (map (\<lambda>(c, cells). (c, s_missing cells)) qs) =
        (if list_all (\<lambda>(c, cells). dropna cells \<noteq> []) qs
         then Inr (map (\<lambda>(c, cells). (c, s_mean cells)) qs) else Inl ZeroDivisionError)"
    by (rule for_each_col_map) (simp add: step_mean col)
  have s4: "for_each_col (get_var_col t) (map (\<lambda>(c, cells). (c, s_mean cells)) qs) =
        (if list_all (\<lambda>(c, cells). enough cells) qs
         then Inr (map (\<lambda>(c, cells). (c, s_var cells)) qs) else Inl ZeroDivisionError)"
    unfolding enough_def by (rule for_each_col_map) (simp add: step_var col)
  show ?thesis
  proof (cases "list_all (\<lambda>(c, cells). enough cells) qs")
    case False
    then show ?thesis
      unfolding describe_def s1 qs_def [symmetric]
      by (simp add: s2 s3 s4)
  next
    case True
    then have en: "\<And>c cells. (c, cells) \<in> set qs \<Longrightarrow> enough cells"
      by (auto simp: list_all_iff)
    have a2: "list_all (\<lambda>(c, cells). cells \<noteq> []) qs"
      using en enough_nonempty by (auto simp: list_all_iff)
    have a3: "list_all (\<lambda>(c, cells). dropna cells \<noteq> []) qs"
      using en enough_nonempty by (auto simp: list_all_iff)
    have s5: "for_each_col (get_std_col t) (map (\<lambda>(c, cells). (c, s_var cells)) qs) =
        Inr (map (\<lambda>(c, cells). (c, s_std cells)) qs)"
      by (rule for_each_col_all) (rule step_std)
    have s6: "for_each_col (get_min_col t) (map (\<lambda>(c, cells). (c, s_std cells)) qs) =
        Inr (map (\<lambda>(c, cells). (c, s_min cells)) qs)"
      by (rule for_each_col_all) (simp add: step_min col en enough_nonempty)
    have s7: "for_each_col (get_25_col t) (map (\<lambda>(c, cells). (c, s_min cells)) qs) =
        Inr (map (\<lambda>(c, cells). (c, s_25 cells)) qs)"
      by (rule for_each_col_all) (simp add: step_25 col en enough_nonempty)
    have s8: "for_each_col (get_50_col t) (map (\<lambda>(c, cells). (c, s_25 cells)) qs) =
        Inr (map (\<lambda>(c, cells). (c, s_50 cells)) qs)"
      by (rule for_each_col_all) (simp add: step_50 col en enough_nonempty)
    have s9: "for_each_col (get_75_col t) (map (\<lambda>(c, cells). (c, s_50 cells)) qs) =
        Inr (map (\<lambda>(c, cells). (c, s_75 cells)) qs)"
      by (rule for_each_col_all) (simp add: step_75 col en enough_nonempty)
    have s10: "for_each_col (get_iqr_col t) (map (\<lambda>(c, cells). (c, s_75 cells)) qs) =
        Inr (map (\<lambda>(c, cells). (c, s_iqr cells)) qs)"
      by (rule for_each_col_all) (rule step_iqr)
    have s11: "for_each_col (get_max_col t) (map (\<lambda>(c, cells). (c, s_iqr cells)) qs) =
        Inr (map (\<lambda>(c, cells). (c, s_max cells)) qs)"
      by (rule for_each_col_all) (simp add: step_max col en enough_nonempty)
    have s12: "for_each_col (get_mode_col t) (map (\<lambda>(c, cells). (c, s_max cells)) qs) =
        Inr (map (\<lambda>(c, cells). (c, s_mode cells)) qs)"
      by (rule for_each_col_all) (simp add: step_mode col en enough_nonempty)
    have s13: "for_each_col (get_kurtosis_col t) (map (\<lambda>(c, cells). (c, s_mode cells)) qs) =
        Inr (map (\<lambda>(c, cells). (c, col_stats cells)) qs)"
      by (rule for_each_col_all) (simp add: step_kurtosis col en enough_nonempty)
    show ?thesis
      unfolding describe_def s1 qs_def [symmetric]
      using True a2 a3
      by (simp add: s2 s3 s4 s5 s6 s7 s8 s9 s10 s11 s12 s13)
  qed
qed

lemma round_half_even_nonneg: "0 \<le> x \<Longrightarrow> 0 \<le> round_half_even x"
  by (simp add: round_half_even_def Let_def)

lemma round6_nonneg: "0 \<le> x \<Longrightarrow> 0 \<le> round6 x"
  by (simp add: round6_def round_half_even_nonneg)

lemma var_of_nonneg: "enough cells \<Longrightarrow> 0 \<le> var_of cells"
proof -
  assume "enough cells"
  then have "(0::real) \<le> of_int (count_of cells - 1)"
    by (simp add: enough_def count_of_def)
  moreover have "0 \<le> (\<Sum>i\<leftarrow>dropna cells. (i - mean_raw cells)\<^sup>2)"
    by (rule sum_list_nonneg) auto
  ultimately show ?thesis
    unfolding var_of_def by (intro round6_nonneg divide_nonneg_nonneg)
qed

lemma std_of_eq: "enough cells \<Longrightarrow> std_of cells = Num (round6 (sqrt (var_of cells)))"
  using var_of_nonneg [of cells] by (simp add: std_of_def)

lemma foldl_fl_add_Num:
  "foldl fl_add (Num a) (map (\<lambda>i. Num (f i)) xs) = Num (a + sum_list (map f xs))"
  by (induction xs arbitrary: a) (simp_all add: add.assoc)

lemma kurtosis_sum_Num:
  "s \<noteq> 0 \<Longrightarrow>
   kurtosis_sum (Num m) (Num s) xs = Num (\<Sum>x\<leftarrow>xs. ((x - m) / s) ^ 4)"
  using foldl_fl_add_Num [of 0 "\<lambda>x. ((x - m) / s) ^ 4" xs]
  by (simp add: kurtosis_sum_def fl_sub_def)

lemma foldl_fl_add_NaN: "foldl fl_add NaN ys = NaN"
  by (induction ys) simp_all

lemma foldl_fl_add_PInf:
  "list_all (\<lambda>y. y = NaN \<or> y = PInf) ys \<Longrightarrow>
   foldl fl_add PInf ys = (if NaN \<in> set ys then NaN else PInf)"
  by (induction ys) (auto simp: foldl_fl_add_NaN)

lemma kurtosis_term_zero_std:
  "fl_pow4 (fl_div (fl_sub (Num x) (Num m)) (Num 0)) = (if x = m then NaN else PInf)"
  by (simp add: fl_sub_def)

lemma kurtosis_sum_zero_std:
  assumes "xs \<noteq> []"
  shows "kurtosis_sum (Num m) (Num 0) xs = (if m \<in> set xs then NaN else PInf)"
proof -
  obtain x xs' where xs: "xs = x # xs'" using assms by (cases xs) auto
  let ?ys = "map (\<lambda>i. if i = m then NaN else PInf) xs'"
  have all: "list_all (\<lambda>y. y = NaN \<or> y = PInf) ?ys"
    by (induction xs') simp_all
  have mem: "(NaN \<in> set ?ys) = (m \<in> set xs')"
    by (auto simp: image_iff)
  show ?thesis
    unfolding kurtosis_sum_def kurtosis_term_zero_std xs
    using foldl_fl_add_PInf [OF all] mem
    by (auto simp: foldl_fl_add_NaN)
qed

lemma report_member:
  "(c, r) \<in> set (map (\<lambda>(c, cells). (c, col_stats cells)) qs) \<Longrightarrow>
   \<exists>cells. (c, cells) \<in> set qs \<and> r = col_stats cells"
  by auto


lemma described_record:
  assumes d: "distinct (map fst t)" and rep: "describe t = Inr rep" and m: "(c, r) \<in> set rep"
  shows "\<exists>cells. column t c = Inr cells \<and> enough cells \<and> r = col_stats cells"
proof -
  have all: "list_all (\<lambda>(c, cells). enough cells) (qualifying t)"
    and eq: "rep = map (\<lambda>(c, cells). (c, col_stats cells)) (qualifying t)"
    using rep unfolding describe_eq [OF d] by (auto split: if_splits)
  from m obtain cells where q: "(c, cells) \<in> set (qualifying t)" and r: "r = col_stats cells"
    unfolding eq by auto
  have "enough cells" using all q by (auto simp: list_all_iff)
  with column_qualifying [OF d q] r show ?thesis by blast
qed

lemma col_stats_lookups:
  "col_stats cells ''count'' = Some (IntV (count_of cells))"
  "col_stats cells ''mean'' = Some (FloatV (Num (mean_of cells)))"
  "col_stats cells ''std'' = Some (FloatV (std_of cells))"
  "col_stats cells ''min'' = Some (FloatV (min_of cells))"
  "col_stats cells ''25%'' = Some (FloatV (Num (quantile_of (1 / 4) cells)))"
  "col_stats cells ''50%'' = Some (FloatV (Num (quantile_of (1 / 2) cells)))"
  "col_stats cells ''75%'' = Some (FloatV (Num (quantile_of (3 / 4) cells)))"
  "col_stats cells ''iqr'' =
     Some (FloatV (Num (quantile_of (3 / 4) cells - quantile_of (1 / 4) cells)))"
  "col_stats cells ''max'' = Some (FloatV (max_of cells))"
  "col_stats cells ''kurtosis'' = Some (FloatV (kurtosis_of cells))"
  by (simp_all add: col_stats_def stage_defs)

lemma sample_table_facts:
  "distinct (map fst sample_table)"
  "qualifying sample_table =
     [(''Index'', [Some 0, Some 1, Some 2, Some 3]), (''Arithmancy'', [Some 1, None, Some 3, Some 5])]"
  "column sample_table ''Arithmancy'' = Inr [Some 1, None, Some 3, Some 5]"
  by (simp_all add: sample_table_def label_column_def column_def)

lemma describe_sample_table:
  "describe sample_table =
     Inr [(''Index'', col_stats [Some 0, Some 1, Some 2, Some 3]),
          (''Arithmancy'', col_stats [Some 1, None, Some 3, Some 5])]"
  unfolding describe_eq [OF sample_table_facts(1)] sample_table_facts(2)
  by (simp add: enough_def)

lemma arithmancy_values:
  "mean_of [Some 1, None, Some 3, Some 5] = 3"
  "var_of [Some 1, None, Some 3, Some 5] = 4"
  "std_of [Some 1, None, Some 3, Some 5] = Num 2"
  "quantile_of (1 / 4) [Some 1, None, Some 3, Some 5] = 2"
  "quantile_of (3 / 4) [Some 1, None, Some 3, Some 5] = 4"
proof -
  show m: "mean_of [Some 1, None, Some 3, Some 5] = 3"
    by (simp add: mean_of_def mean_raw_def count_of_def round6_def round_half_even_def)
  show v: "var_of [Some 1, None, Some 3, Some 5] = 4"
    by (simp add: var_of_def mean_raw_def count_of_def round6_def round_half_even_def)
  show "std_of [Some 1, None, Some 3, Some 5] = Num 2"
    by (simp add: std_of_def v round6_def round_half_even_def)
  show "quantile_of (1 / 4) [Some 1, None, Some 3, Some 5] = 2"
    by (simp add: quantile_of_def spec_quantile_def round6_def round_half_even_def Let_def
        del: of_int_floor_cancel)
  show "quantile_of (3 / 4) [Some 1, None, Some 3, Some 5] = 4"
    by (simp add: quantile_of_def spec_quantile_def round6_def round_half_even_def Let_def
        del: of_int_floor_cancel)
qed

lemma qualifying_as_filter:
  "map fst (qualifying t) = map fst (filter (\<lambda>(c, d). is_numeric d \<and> c \<noteq> label_column) t)"
  by (induction t rule: qualifying.induct) simp_all

lemma names_of_records: "map fst (map (\<lambda>(c, cells). (c, f cells)) qs) = map fst qs"
  by (induction qs) auto


subsection \<open>Percentiles\<close>



text \<open>
  C10: for a column with at least one present value and \<open>p\<close> one of 0.25, 0.50, 0.75, the
  index \<open>int(v)\<close> lies between 0 and \<open>count - 1\<close>, and so does \<open>int(v) + 1\<close> when \<open>v\<close> is
  not an integer, so that the lookups succeed and a value is returned; with no present
  value the lookup raises KeyError.
\<close>

theorem quartile_lookups_in_bounds:
  fixes p :: real
  assumes "p \<in> {1 / 4, 1 / 2, 3 / 4}"
  shows "(xs \<noteq> [] \<longrightarrow>
           (let n = int (length xs); v = of_int (n - 1) * p
            in 0 \<le> py_int v \<and> py_int v \<le> n - 1
               \<and> (py_mod1 v \<noteq> 0 \<longrightarrow> py_int v + 1 \<le> n - 1))
           \<and> (\<exists>q. quartile p (int (length xs)) xs = Inr q))
       \<and> quartile p 0 [] = Inl KeyError"
proof -
  have p: "0 \<le> p" "p \<le> 1" using assms by auto
  have e: "quartile p 0 [] = Inl KeyError"
    by (simp add: quartile_def series_at_def bind_def Let_def)
  have "0 \<le> py_int (of_int (int (length xs) - 1) * p)
        \<and> py_int (of_int (int (length xs) - 1) * p) \<le> int (length xs) - 1
        \<and> (py_mod1 (of_int (int (length xs) - 1) * p) \<noteq> 0
             \<longrightarrow> py_int (of_int (int (length xs) - 1) * p) + 1 \<le> int (length xs) - 1)
        \<and> (\<exists>q. quartile p (int (length xs)) xs = Inr q)"
    if ne: "xs \<noteq> []"
  proof -
    have n: "1 \<le> int (length xs)" using ne by (cases xs) simp_all
    note b = virtual_index_bounds [OF n p]
    have pi: "py_int (of_int (int (length xs) - 1) * p) = \<lfloor>of_int (int (length xs) - 1) * p\<rfloor>"
      using b(1) by (rule py_int_nonneg)
    have "0 \<le> \<lfloor>of_int (int (length xs) - 1) * p\<rfloor>" using b(1) by simp
    with b(2) b(3) quartile_in_range [OF ne p] show ?thesis
      unfolding pi by blast
  qed
  with e show ?thesis by (simp add: Let_def)
qed

theorem quartile_lookups_in_bounds_witness:
  "(1 / 4 :: real) \<in> {1 / 4, 1 / 2, 3 / 4}
   \<and> [1, 2, 3, 4 :: real] \<noteq> []
   \<and> py_mod1 (of_int (4 - 1) * (1 / 4)) \<noteq> 0
   \<and> py_int (of_int (4 - 1) * (1 / 4)) + 1 \<le> 4 - 1
   \<and> (\<exists>q. quartile (1 / 4) 4 [1, 2, 3, 4] = Inr q)
   \<and> quartile (1 / 4) 0 [] = Inl KeyError"
proof -
  have m: "py_mod1 (of_int (4 - 1) * (1 / 4)) \<noteq> 0"
    by (simp add: py_mod1_def)
  show ?thesis
    using quartile_lookups_in_bounds [of "1 / 4" "[1, 2, 3, 4]"] m
    by (simp add: Let_def)
qed

subsection \<open>Mode\<close>

text \<open>
  C2: the mode is meant to be the most frequent present value, also when its run is the
  last one of the sorted sequence. The loop of \<open>get_mode\<close> compares a run with the
  longest one only when the next run starts, so the last run is never compared: for the
  cells 2, 1, 2 (sorted: 1, 2, 2) the stored mode is 1, where the most frequent value is 2.
\<close>

theorem get_mode_misses_final_run:
  "get_mode_col [(''A'', Numeric [Some 2, Some 1, Some 2])] ''A'' Map.empty
     = Inr [''mode'' \<mapsto> FloatV (Num 1)]
   \<and> spec_mode (dropna [Some 2, Some 1, Some 2]) = Some 2"
  by (simp add: get_mode_col_def column_def find_mode_def series_at_def spec_mode_def)

subsection \<open>Extremes\<close>

text \<open>
  C3: the minimum and the maximum are meant to be those of the present values, whether
  or not the first cell is missing. \<open>get_min\<close> and \<open>get_max\<close> start from the first cell
  as it is; when that cell is missing it is NaN, no comparison with NaN is true, and NaN
  stays: for the cells NaN, 3, 1 both stored extremes are NaN, where the minimum of the
  present values is 1 and their maximum is 3.
\<close>

theorem get_min_max_seeded_with_missing_cell:
  "get_min_col [(''A'', Numeric [None, Some 3, Some 1])] ''A'' Map.empty
     = Inr [''min'' \<mapsto> FloatV NaN]
   \<and> get_max_col [(''A'', Numeric [None, Some 3, Some 1])] ''A'' Map.empty
     = Inr [''max'' \<mapsto> FloatV NaN]
   \<and> Min (set (dropna [None, Some 3, Some 1])) = 1
   \<and> Max (set (dropna [None, Some 3, Some 1])) = 3"
  by (simp add: get_min_col_def get_max_col_def column_def series_at_def)

subsection \<open>Interquartile range\<close>

text \<open>
  C8: in every record of a report, the stored \<open>iqr\<close> is the stored (rounded) \<open>75%\<close>
  minus the stored (rounded) \<open>25%\<close>; the statistics computed after it leave the three
  entries as they are.
\<close>

theorem iqr_is_difference_of_stored_quartiles:
  assumes "distinct (map fst t)" and "describe t = Inr rep" and "(c, r) \<in> set rep"
  shows "\<exists>q75 q25. r ''75%'' = Some (FloatV (Num q75)) \<and> r ''25%'' = Some (FloatV (Num q25))
           \<and> r ''iqr'' = Some (FloatV (Num (q75 - q25)))"
  using described_record [OF assms] by (auto simp: col_stats_lookups)

theorem iqr_is_difference_of_stored_quartiles_witness:
  "distinct (map fst sample_table)
   \<and> describe sample_table =
       Inr [(''Index'', col_stats [Some 0, Some 1, Some 2, Some 3]),
            (''Arithmancy'', col_stats [Some 1, None, Some 3, Some 5])]
   \<and> (''Arithmancy'', col_stats [Some 1, None, Some 3, Some 5])
       \<in> set [(''Index'', col_stats [Some 0, Some 1, Some 2, Some 3]),
               (''Arithmancy'', col_stats [Some 1, None, Some 3, Some 5])]
   \<and> col_stats [Some 1, None, Some 3, Some 5] ''75%'' = Some (FloatV (Num 4))
   \<and> col_stats [Some 1, None, Some 3, Some 5] ''25%'' = Some (FloatV (Num 2))
   \<and> col_stats [Some 1, None, Some 3, Some 5] ''iqr'' = Some (FloatV (Num (4 - 2)))"
proof -
  have m: "(''Arithmancy'', col_stats [Some 1, None, Some 3, Some 5])
       \<in> set [(''Index'', col_stats [Some 0, Some 1, Some 2, Some 3]),
               (''Arithmancy'', col_stats [Some 1, None, Some 3, Some 5])]"
    by simp
  from iqr_is_difference_of_stored_quartiles [OF sample_table_facts(1) describe_sample_table m]
  obtain q75 q25 where
    "col_stats [Some 1, None, Some 3, Some 5] ''75%'' = Some (FloatV (Num q75))"
    "col_stats [Some 1, None, Some 3, Some 5] ''25%'' = Some (FloatV (Num q25))"
    "col_stats [Some 1, None, Some 3, Some 5] ''iqr'' = Some (FloatV (Num (q75 - q25)))"
    by blast
  moreover from this have "q75 = 4" "q25 = 2"
    unfolding col_stats_lookups arithmancy_values by simp_all
  ultimately show ?thesis
    using sample_table_facts(1) describe_sample_table m by simp
qed

subsection \<open>Kurtosis\<close>

text \<open>
  C5: in every record of a report, the stored kurtosis is the mean over the present
  values of \<open>((x - mean) / std) ^ 4\<close>, rounded to 6 decimals, where \<open>mean\<close> and \<open>std\<close>
  are the rounded values stored in the same record. This is so when the stored \<open>std\<close>
  is not 0; when it is 0 the division is numpy's and the stored kurtosis is no number:
  NaN when a present value equals the stored mean, infinity otherwise.
\<close>

theorem kurtosis_from_stored_mean_and_std:
  assumes "distinct (map fst t)" and "describe t = Inr rep" and "(c, r) \<in> set rep"
    and "column t c = Inr cells"
  shows "\<exists>m s. r ''mean'' = Some (FloatV (Num m)) \<and> r ''std'' = Some (FloatV (Num s))
           \<and> r ''kurtosis'' =
               Some (FloatV
                 (if s \<noteq> 0
                  then Num (round6 ((\<Sum>x\<leftarrow>dropna cells. ((x - m) / s) ^ 4)
                                    / real (length (dropna cells))))
                  else if m \<in> set (dropna cells) then NaN else PInf))"
proof -
  from described_record [OF assms(1-3)] assms(4)
  have en: "enough cells" and r: "r = col_stats cells" by auto
  have ne: "dropna cells \<noteq> []" and n0: "real (length (dropna cells)) \<noteq> 0"
    using en by (auto simp: enough_def)
  define m where "m = mean_of cells"
  define s where "s = round6 (sqrt (var_of cells))"
  have std: "std_of cells = Num s" using std_of_eq [OF en] by (simp add: s_def)
  have k: "kurtosis_of cells =
        (if s \<noteq> 0
         then Num (round6 ((\<Sum>x\<leftarrow>dropna cells. ((x - m) / s) ^ 4) / real (length (dropna cells))))
         else if m \<in> set (dropna cells) then NaN else PInf)"
  proof (cases "s = 0")
    case True
    then show ?thesis
      using n0 by (simp add: kurtosis_of_def std m_def [symmetric] kurtosis_sum_zero_std [OF ne]
          count_of_def)
  next
    case False
    then show ?thesis
      using n0 by (simp add: kurtosis_of_def std m_def [symmetric] kurtosis_sum_Num count_of_def)
  qed
  show ?thesis
    unfolding r col_stats_lookups std k m_def [symmetric] by blast
qed

theorem kurtosis_from_stored_mean_and_std_witness:
  "distinct (map fst sample_table)
   \<and> describe sample_table =
       Inr [(''Index'', col_stats [Some 0, Some 1, Some 2, Some 3]),
            (''Arithmancy'', col_stats [Some 1, None, Some 3, Some 5])]
   \<and> (''Arithmancy'', col_stats [Some 1, None, Some 3, Some 5])
       \<in> set [(''Index'', col_stats [Some 0, Some 1, Some 2, Some 3]),
               (''Arithmancy'', col_stats [Some 1, None, Some 3, Some 5])]
   \<and> column sample_table ''Arithmancy'' = Inr [Some 1, None, Some 3, Some 5]
   \<and> col_stats [Some 1, None, Some 3, Some 5] ''mean'' = Some (FloatV (Num 3))
   \<and> col_stats [Some 1, None, Some 3, Some 5] ''std'' = Some (FloatV (Num 2))
   \<and> col_stats [Some 1, None, Some 3, Some 5] ''kurtosis''
       = Some (FloatV (Num (666667 / 1000000)))"
proof -
  have m: "(''Arithmancy'', col_stats [Some 1, None, Some 3, Some 5])
       \<in> set [(''Index'', col_stats [Some 0, Some 1, Some 2, Some 3]),
               (''Arithmancy'', col_stats [Some 1, None, Some 3, Some 5])]"
    by simp
  from kurtosis_from_stored_mean_and_std
    [OF sample_table_facts(1) describe_sample_table m sample_table_facts(3)]
  obtain mu s where
    mu: "col_stats [Some 1, None, Some 3, Some 5] ''mean'' = Some (FloatV (Num mu))"
    and s: "col_stats [Some 1, None, Some 3, Some 5] ''std'' = Some (FloatV (Num s))"
    and k: "col_stats [Some 1, None, Some 3, Some 5] ''kurtosis'' =
       Some (FloatV
         (if s \<noteq> 0
          then Num (round6 ((\<Sum>x\<leftarrow>dropna [Some 1, None, Some 3, Some 5]. ((x - mu) / s) ^ 4)
                            / real (length (dropna [Some 1, None, Some 3, Some 5]))))
          else if mu \<in> set (dropna [Some 1, None, Some 3, Some 5]) then NaN else PInf))"
    by blast
  have mu3: "mu = 3" using mu unfolding col_stats_lookups arithmancy_values by simp
  have s2: "s = 2" using s unfolding col_stats_lookups arithmancy_values by simp
  have "col_stats [Some 1, None, Some 3, Some 5] ''kurtosis'' = Some (FloatV (Num (666667 / 1000000)))"
    unfolding k mu3 s2 by (simp add: round6_def round_half_even_def)
  then show ?thesis
    using sample_table_facts(1,3) describe_sample_table m mu s mu3 s2 by simp
qed

subsection \<open>Selection of the columns\<close>

text \<open>
  C9: the dictionary of statistics is created with one key for each column whose type
  is numeric and whose name is not the label column, in the order of the table, and a
  report that the constructor leaves has these keys in this order: a column is in it if
  and only if it is numeric and not the label column. When no column qualifies the
  report is empty. The names of the columns are distinct, as pandas delivers them.
\<close>

theorem report_columns_are_numeric_non_label:
  assumes "distinct (map fst t)"
  shows "map fst (init_stats t)
           = map fst (filter (\<lambda>(c, d). is_numeric d \<and> c \<noteq> ''Hogwarts House'') t)
       \<and> (describe t = Inr rep \<longrightarrow>
            map fst rep = map fst (filter (\<lambda>(c, d). is_numeric d \<and> c \<noteq> ''Hogwarts House'') t)
            \<and> (\<forall>c. c \<in> fst ` set rep \<longleftrightarrow>
                   (\<exists>d. (c, d) \<in> set t \<and> is_numeric d \<and> c \<noteq> ''Hogwarts House'')))
       \<and> (filter (\<lambda>(c, d). is_numeric d \<and> c \<noteq> ''Hogwarts House'') t = [] \<longrightarrow>
            describe t = Inr [])"
proof -
  let ?Q = "filter (\<lambda>(c, d). is_numeric d \<and> c \<noteq> ''Hogwarts House'') t"
  have names: "map fst (qualifying t) = map fst ?Q"
    using qualifying_as_filter [of t] by (simp add: label_column_def)
  have 1: "map fst rep = map fst ?Q
           \<and> (\<forall>c. c \<in> fst ` set rep \<longleftrightarrow> (\<exists>d. (c, d) \<in> set t \<and> is_numeric d \<and> c \<noteq> ''Hogwarts House''))"
    if rep: "describe t = Inr rep"
  proof -
    have "rep = map (\<lambda>(c, cells). (c, col_stats cells)) (qualifying t)"
      using rep unfolding describe_eq [OF assms] by (auto split: if_splits)
    then have "map fst rep = map fst (qualifying t)"
      using names_of_records [of col_stats "qualifying t"] by simp
    then have m: "map fst rep = map fst ?Q" using names by simp
    have "fst ` set rep = set (map fst ?Q)"
      using m by (metis set_map)
    also have "\<dots> = {c. \<exists>d. (c, d) \<in> set t \<and> is_numeric d \<and> c \<noteq> ''Hogwarts House''}"
      by (auto simp: image_iff)
    finally show ?thesis using m by auto
  qed
  have 2: "describe t = Inr []" if "?Q = []"
  proof -
    have "map fst (qualifying t) = []" using names that by simp
    then have "qualifying t = []" by simp
    then show ?thesis unfolding describe_eq [OF assms] by simp
  qed
  have 0: "map fst (init_stats t) = map fst ?Q"
    unfolding init_stats_eq [OF assms] names_of_records using names .
  from 0 1 2 show ?thesis by blast
qed

theorem report_columns_are_numeric_non_label_witness:
  "distinct (map fst sample_table)
   \<and> describe sample_table =
       Inr [(''Index'', col_stats [Some 0, Some 1, Some 2, Some 3]),
            (''Arithmancy'', col_stats [Some 1, None, Some 3, Some 5])]
   \<and> map fst [(''Index'', col_stats [Some 0, Some 1, Some 2, Some 3]),
               (''Arithmancy'', col_stats [Some 1, None, Some 3, Some 5])]
       = [''Index'', ''Arithmancy'']
   \<and> distinct (map fst [(''Hogwarts House'', Numeric [Some 1, Some 2]), (''First Name'', Other [''Tamara'', ''Erich''])])
   \<and> filter (\<lambda>(c, d). is_numeric d \<and> c \<noteq> ''Hogwarts House'')
        [(''Hogwarts House'', Numeric [Some 1, Some 2]), (''First Name'', Other [''Tamara'', ''Erich''])] = []
   \<and> describe [(''Hogwarts House'', Numeric [Some 1, Some 2]), (''First Name'', Other [''Tamara'', ''Erich''])]
       = Inr []"
proof -
  have d2: "distinct (map fst [(''Hogwarts House'', Numeric [Some 1, Some 2]), (''First Name'', Other [''Tamara'', ''Erich''])])"
    by simp
  have e: "filter (\<lambda>(c, d). is_numeric d \<and> c \<noteq> ''Hogwarts House'')
        [(''Hogwarts House'', Numeric [Some 1, Some 2]), (''First Name'', Other [''Tamara'', ''Erich''])] = []"
    by simp
  have a: "map fst [(''Index'', col_stats [Some 0, Some 1, Some 2, Some 3]),
               (''Arithmancy'', col_stats [Some 1, None, Some 3, Some 5])]
       = map fst (filter (\<lambda>(c, d). is_numeric d \<and> c \<noteq> ''Hogwarts House'') sample_table)"
    using report_columns_are_numeric_non_label [OF sample_table_facts(1)] describe_sample_table
    by blast
  have b: "describe [(''Hogwarts House'', Numeric [Some 1, Some 2]), (''First Name'', Other [''Tamara'', ''Erich''])]
       = Inr []"
    using report_columns_are_numeric_non_label [OF d2] e by blast
  show ?thesis
    using sample_table_facts(1) describe_sample_table a b d2 e by simp
qed

subsection \<open>Columns with too few present values\<close>







subsection \<open>Order of the stored statistics\<close>

text \<open>
  C4: the stored statistics are meant to satisfy min \<open>\<le>\<close> 25% \<open>\<le>\<close> 50% \<open>\<le>\<close> 75% \<open>\<le>\<close> max.
  For the cells NaN, 1, 3, 5 the stored minimum and maximum are NaN (the unguarded first
  cell of C3), which is below or equal to nothing, while the quartiles are 2 and 4. For
  the cells 1.0000004, 1.0000004, 2 the stored minimum is the first cell as it is,
  1.0000004, above the stored 25%, which is 1.
\<close>

theorem stored_min_not_below_first_quartile:
  "describe [(''A'', Numeric [None, Some 1, Some 3, Some 5])]
     = Inr [(''A'', col_stats [None, Some 1, Some 3, Some 5])]
   \<and> col_stats [None, Some 1, Some 3, Some 5] ''min'' = Some (FloatV NaN)
   \<and> col_stats [None, Some 1, Some 3, Some 5] ''25%'' = Some (FloatV (Num 2))
   \<and> col_stats [None, Some 1, Some 3, Some 5] ''75%'' = Some (FloatV (Num 4))
   \<and> col_stats [None, Some 1, Some 3, Some 5] ''max'' = Some (FloatV NaN)
   \<and> \<not> fl_less NaN (Num 2) \<and> NaN \<noteq> Num 2
   \<and> describe [(''A'', Numeric [Some (10000004 / 10000000), Some (10000004 / 10000000), Some 2])]
     = Inr [(''A'', col_stats [Some (10000004 / 10000000), Some (10000004 / 10000000), Some 2])]
   \<and> col_stats [Some (10000004 / 10000000), Some (10000004 / 10000000), Some 2] ''min''
       = Some (FloatV (Num (10000004 / 10000000)))
   \<and> col_stats [Some (10000004 / 10000000), Some (10000004 / 10000000), Some 2] ''25%''
       = Some (FloatV (Num 1))"
proof -
  have a: "describe [(''A'', Numeric [Some (10000004 / 10000000), Some (10000004 / 10000000), Some 2])]
     = Inr [(''A'', col_stats [Some (10000004 / 10000000), Some (10000004 / 10000000), Some 2])]"
    by (subst describe_eq) (simp_all add: label_column_def enough_def)
  have b: "min_of [Some (10000004 / 10000000), Some (10000004 / 10000000), Some 2]
       = Num (10000004 / 10000000)"
    by (simp add: min_of_def)
  have c: "quantile_of (1 / 4) [Some (10000004 / 10000000), Some (10000004 / 10000000), Some 2] = 1"
    by (simp add: quantile_of_def spec_quantile_def round6_def round_half_even_def Let_def
        del: of_int_floor_cancel)
  have d: "describe [(''A'', Numeric [None, Some 1, Some 3, Some 5])]
     = Inr [(''A'', col_stats [None, Some 1, Some 3, Some 5])]"
    by (subst describe_eq) (simp_all add: label_column_def enough_def)
  have e: "min_of [None, Some 1, Some 3, Some 5] = NaN" "max_of [None, Some 1, Some 3, Some 5] = NaN"
    by (simp_all add: min_of_def max_of_def)
  have f: "quantile_of (1 / 4) [None, Some 1, Some 3, Some 5] = 2"
    "quantile_of (3 / 4) [None, Some 1, Some 3, Some 5] = 4"
    by (simp_all add: quantile_of_def spec_quantile_def round6_def round_half_even_def Let_def
        del: of_int_floor_cancel)
  show ?thesis
    unfolding col_stats_lookups b c e f using a d by simp
qed

end
